theory Spec2Isabelle
  imports Main "HOL-Library.Word"
begin

unbundle bit_operations_syntax

section \<open>Python values and files\<close>

text \<open>
  The decoder is Python: integers are unbounded (\<open>int\<close>), a byte read from a binary file
  is an integer in \<open>0..255\<close> (an \<open>8 word\<close>, read as an integer with \<open>uint\<close>), and an
  exception that leaves a function is a value \<open>Raised e\<close> of the function's outcome.
\<close>

type_synonym byte = "8 word"

datatype py_error = IndexError | ValueError | OverflowError | OSError | CreationError

datatype 'a outcome = Returned 'a | Raised py_error

definition obind :: "'a outcome \<Rightarrow> ('a \<Rightarrow> 'b outcome) \<Rightarrow> 'b outcome" where
  "obind m k = (case m of Raised e \<Rightarrow> Raised e | Returned v \<Rightarrow> k v)"

text \<open>
  A binary file opened for reading: its bytes and the current position.
  \<open>read(n)\<close> returns at most \<open>n\<close> bytes from the position and advances it by what was
  returned; \<open>read(-1)\<close> reads to the end of the file, a count below \<open>-1\<close> raises
  ValueError, and a count above \<open>sys.maxsize\<close> raises OverflowError. (The memory a large
  count would need is not modelled.) A seek to a negative position raises; a seek beyond
  the end is allowed, and a read there returns no bytes.
\<close>

record in_file =
  fbytes :: "byte list"
  fpos :: nat

definition sys_maxsize :: int where
  "sys_maxsize = 9223372036854775807"

definition file_read :: "in_file \<Rightarrow> int \<Rightarrow> (byte list \<times> in_file) outcome" where
  "file_read f n =
     (if n < - 1 then Raised ValueError
      else if sys_maxsize < n then Raised OverflowError
      else (let avail = drop (fpos f) (fbytes f);
                got = (if n = - 1 then avail else take (nat n) avail)
            in Returned (got, f\<lparr>fpos := fpos f + length got\<rparr>)))"

definition seek_set :: "in_file \<Rightarrow> int \<Rightarrow> in_file outcome" where
  "seek_set f n = (if n < 0 then Raised OSError else Returned (f\<lparr>fpos := nat n\<rparr>))"

definition seek_cur :: "in_file \<Rightarrow> int \<Rightarrow> in_file outcome" where
  "seek_cur f n = seek_set f (int (fpos f) + n)"

text \<open>\<open>rawdata[i]\<close> for \<open>i \<ge> 0\<close>: the byte as an integer, IndexError out of range.\<close>

definition byte_at :: "byte list \<Rightarrow> nat \<Rightarrow> int outcome" where
  "byte_at rawdata i = (if i < length rawdata then Returned (uint (rawdata ! i)) else Raised IndexError)"

section \<open>The page lookup table\<close>

text \<open>Class \<open>LUTentry\<close>; the field \<open>size\<close> is \<open>size_field\<close> here. The constructor sets it to 0.\<close>

record LUTentry =
  offset :: int
  dictionary_selector :: int
  size_field :: int

definition new_LUTentry :: "int \<Rightarrow> int \<Rightarrow> LUTentry" where
  "new_LUTentry off sel = \<lparr>offset = off, dictionary_selector = sel, size_field = 0\<rparr>"

text \<open>The offset expression of \<open>read_lut\<close>, with the index choices and masks of the source.\<close>

definition lut_offset :: "bool \<Rightarrow> byte list \<Rightarrow> int outcome" where
  "lut_offset reverse_byte_ordering rawdata =
     obind (byte_at rawdata (if reverse_byte_ordering then 3 else 0)) (\<lambda>b3.
     obind (byte_at rawdata (if reverse_byte_ordering then 2 else 1)) (\<lambda>b2.
     obind (byte_at rawdata (if reverse_byte_ordering then 1 else 2)) (\<lambda>b1.
     obind (byte_at rawdata (if reverse_byte_ordering then 0 else 3)) (\<lambda>b0.
       Returned (push_bit 24 ((b3 AND 0x3F) AND 0xFF)
                 OR push_bit 16 (b2 AND 0xFF)
                 OR push_bit 8 (b1 AND 0xFF)
                 OR (b0 AND 0xFF))))))"

text \<open>
  The \<open>while\<close> loop of \<open>read_lut\<close>. Its state is the file, \<open>position\<close>,
  \<open>entry_index\<close> and the list built so far (\<open>local_lut_return_value\<close>);
  \<open>continue\<close> is the recursive call that leaves the list as it is.
\<close>

function read_lut_loop ::
  "bool \<Rightarrow> int \<Rightarrow> in_file \<Rightarrow> int \<Rightarrow> int \<Rightarrow> LUTentry list \<Rightarrow> LUTentry list outcome \<times> in_file"
where
  "read_lut_loop reverse_byte_ordering bytes_of_lut_to_read f position entry_index lut =
     (if position < bytes_of_lut_to_read then
        (case file_read f 4 of
           Raised e \<Rightarrow> (Raised e, f)
         | Returned (rawdata, f') \<Rightarrow>
          (case byte_at rawdata (if reverse_byte_ordering then 3 else 0) of
             Raised e \<Rightarrow> (Raised e, f')
           | Returned b \<Rightarrow>
               (let huffman_selector = b AND 0xC0 in
                if huffman_selector \<noteq> 0xC0 \<and> huffman_selector \<noteq> 0x40
                then read_lut_loop reverse_byte_ordering bytes_of_lut_to_read f'
                       (position + 4) entry_index lut
                else
                  (case lut_offset reverse_byte_ordering rawdata of
                     Raised e \<Rightarrow> (Raised e, f')
                   | Returned off \<Rightarrow>
                       (let new_lut_entry =
                              new_LUTentry off (if huffman_selector = 0xC0 then 1 else 0)
                        in if entry_index > 0
                           then (if nat (entry_index - 1) < length lut
                                 then read_lut_loop reverse_byte_ordering bytes_of_lut_to_read f'
                                        (position + 4) (entry_index + 1)
                                        (lut[nat (entry_index - 1) :=
                                               (lut ! nat (entry_index - 1))
                                                 \<lparr>size_field := offset new_lut_entry
                                                     - offset (lut ! nat (entry_index - 1))\<rparr>]
                                         @ [new_lut_entry])
                                 else (Raised IndexError, f'))
                           else read_lut_loop reverse_byte_ordering bytes_of_lut_to_read f'
                                  (position + 4) (entry_index + 1) (lut @ [new_lut_entry]))))))
      else (Returned lut, f))"
  by pat_completeness auto
termination
  by (relation "measure (\<lambda>(r, n, f, position, i, l). nat (n - position))") auto

declare read_lut_loop.simps [simp del]

definition read_lut :: "in_file \<Rightarrow> int \<Rightarrow> bool \<Rightarrow> LUTentry list outcome \<times> in_file" where
  "read_lut from_opened_input_file bytes_of_lut_to_read reverse_byte_ordering =
     read_lut_loop reverse_byte_ordering bytes_of_lut_to_read from_opened_input_file 0 0 []"

text \<open>
  \<open>int(a / b)\<close> for integers \<open>a\<close> and \<open>b\<close>, where \<open>b\<close> is a positive power of two (8 and
  4096 at the three places of the source). The quotient is a float: the nearest number with
  53 significant bits, ties to the even one, and OverflowError when it does not fit a float.
  For a power of two as divisor that is the dividend rounded to 53 significant bits and
  then scaled, with no further loss. \<open>int\<close> truncates the float towards zero.
\<close>

function bit_length :: "int \<Rightarrow> nat" where
  "bit_length n = (if n \<le> 0 then 0 else Suc (bit_length (n div 2)))"
  by pat_completeness auto
termination
  by (relation "measure nat") auto

declare bit_length.simps [simp del]

definition round_to_53_bits :: "int \<Rightarrow> int" where
  "round_to_53_bits m =
     (let s = bit_length m - 53;
          q = m div 2 ^ s;
          r = m mod 2 ^ s
      in if 2 ^ s < 2 * r \<or> (2 * r = 2 ^ s \<and> odd q) then (q + 1) * 2 ^ s else q * 2 ^ s)"

definition int_of_quotient :: "int \<Rightarrow> int \<Rightarrow> int outcome" where
  "int_of_quotient a b =
     (let m = round_to_53_bits \<bar>a\<bar>
      in if b * 2 ^ 1024 \<le> m then Raised OverflowError
         else Returned (if 0 \<le> a then m div b else - (m div b)))"

text \<open>
  Classes \<open>CodePartitionDescriptor\<close> and \<open>CodeObjectEntry\<close> (their \<open>size\<close> and
  \<open>name\<close> fields carry a prefix here), and \<open>read_lut_of_code_object\<close>. Printing is
  not modelled, so \<open>debug_prints\<close> changes nothing.
\<close>

record CodePartitionDescriptor =
  offset_of_cdt_header :: int
  partition_size :: int
  partition_name :: string

record CodeObjectEntry =
  in_partition :: CodePartitionDescriptor
  rel_offset_of_data_in_partition :: int
  object_size :: int
  object_name :: string
  is_huffman_compressed :: bool

definition HUFFMAN_PAGE_DECODED_SIZE_MAX :: int where
  "HUFFMAN_PAGE_DECODED_SIZE_MAX = 4096"

definition read_lut_of_code_object ::
  "in_file \<Rightarrow> CodeObjectEntry \<Rightarrow> bool \<Rightarrow> LUTentry list option outcome \<times> in_file"
where
  "read_lut_of_code_object from_opened_input_file target_code_object_entry debug_prints =
     (if \<not> is_huffman_compressed target_code_object_entry
      then (Returned None, from_opened_input_file)
      else
        (case seek_set from_opened_input_file
                (offset_of_cdt_header (in_partition target_code_object_entry)
                 + rel_offset_of_data_in_partition target_code_object_entry) of
           Raised e \<Rightarrow> (Raised e, from_opened_input_file)
         | Returned f1 \<Rightarrow>
             (case int_of_quotient (object_size target_code_object_entry)
                     HUFFMAN_PAGE_DECODED_SIZE_MAX of
                Raised e \<Rightarrow> (Raised e, f1)
              | Returned num_of_huffman_code_pages \<Rightarrow>
                  (case read_lut f1 (num_of_huffman_code_pages * 4) True of
                     (Raised e, f2) \<Rightarrow> (Raised e, f2)
                   | (Returned lut, f2) \<Rightarrow> (Returned (Some lut), f2)))))"

section \<open>The Huffman code table\<close>

text \<open>
  Class \<open>HuffmanTableEntry\<close>. The two dictionary values are byte arrays, the code is
  kept both as the string of the table and as its bits (\<open>True\<close> for \<open>1\<close>).
\<close>

record HuffmanTableEntry =
  dict1_value :: "byte list"
  dict2_value :: "byte list"
  dictionary_data_length :: int
  huffman_code_rank :: int
  huffman_code :: string
  huffman_code_bits :: "bool list"

text \<open>
  The three module-level variables. The dictionary \<open>huffman_table\<close> is keyed by the bits
  of a code; \<open>sys.maxsize\<close> is \<open>2 ^ 63 - 1\<close>.
\<close>

record globals =
  huffman_table :: "bool list \<rightharpoonup> HuffmanTableEntry"
  longest_huffman_code_in_bits :: int
  shortest_huffman_code_in_bits :: int

definition clear_huffman_table_data :: globals where
  "clear_huffman_table_data =
     \<lparr>huffman_table = Map.empty, longest_huffman_code_in_bits = 0,
      shortest_huffman_code_in_bits = sys_maxsize\<rparr>"

subsection \<open>Library functions the loader calls\<close>

text \<open>
  \<open>int.to_bytes(length, "big")\<close>: exactly \<open>length\<close> bytes, most significant first;
  ValueError for a negative length, OverflowError for a length above \<open>sys.maxsize\<close>, for
  a negative value and for a value that does not fit. (The memory a large length would
  need is not modelled.)
\<close>

fun be_bytes :: "nat \<Rightarrow> nat \<Rightarrow> byte list" where
  "be_bytes 0 v = []"
| "be_bytes (Suc n) v = be_bytes n (v div 256) @ [of_nat (v mod 256)]"

definition int_to_bytes_big :: "int \<Rightarrow> int \<Rightarrow> byte list outcome" where
  "int_to_bytes_big v len =
     (if sys_maxsize < len then Raised OverflowError
      else if len < 0 then Raised ValueError
      else if v < 0 then Raised OverflowError
      else if 256 ^ nat len \<le> v then Raised OverflowError
      else Returned (be_bytes (nat len) (nat v)))"

text \<open>
  \<open>bitstring.ConstBitArray("0b" + code)\<close>. For a code written with the digits \<open>0\<close> and
  \<open>1\<close> only, the form the table has, the result is the bits of the code in order. What
  the library makes of any other string (it accepts more than binary digits, and raises
  on the rest) is not part of this program: it is the parameter \<open>other_codes\<close>, which the
  loader below carries along.
\<close>

definition binary_digits :: "string \<Rightarrow> bool" where
  "binary_digits code \<longleftrightarrow> code \<noteq> [] \<and> list_all (\<lambda>c. c = CHR ''0'' \<or> c = CHR ''1'') code"

definition bits_of_bin :: "(string \<Rightarrow> bool list outcome) \<Rightarrow> string \<Rightarrow> bool list outcome" where
  "bits_of_bin other_codes code =
     (if binary_digits code then Returned (map (\<lambda>c. c = CHR ''1'') code)
      else other_codes code)"

text \<open>
  \<open>str.split()\<close>: the maximal runs of characters that are not whitespace. A line is a
  string of code points below 256; the whitespace among them is
  \<open>\t \n \v \f \r\<close>, \<open>0x1c..0x1f\<close>, the space, \<open>0x85\<close> and \<open>0xa0\<close>.
\<close>

definition is_py_space :: "char \<Rightarrow> bool" where
  "is_py_space c = ((of_char c :: nat) \<in> {9, 10, 11, 12, 13, 28, 29, 30, 31, 32, 133, 160})"

fun py_split_from :: "string \<Rightarrow> string \<Rightarrow> string list" where
  "py_split_from cur [] = (if cur = [] then [] else [cur])"
| "py_split_from cur (c # cs) =
     (if is_py_space c
      then (if cur = [] then py_split_from [] cs else cur # py_split_from [] cs)
      else py_split_from (cur @ [c]) cs)"

definition py_split :: "string \<Rightarrow> string list" where
  "py_split line = py_split_from [] line"

text \<open>
  \<open>int(s, base)\<close> on a token (no whitespace inside): an optional sign, for base 16 an
  optional \<open>0x\<close> or \<open>0X\<close>, then digits of the base, where single underscores may stand
  between digits and after the prefix. \<open>None\<close> is ValueError. (The limit on the number of
  decimal digits of recent Python versions is not modelled.)
\<close>

definition digit_below :: "nat \<Rightarrow> char \<Rightarrow> nat option" where
  "digit_below b c =
     (let k = (of_char c :: nat);
          d = (if 48 \<le> k \<and> k \<le> 57 then Some (k - 48)
               else if 97 \<le> k \<and> k \<le> 122 then Some (k - 87)
               else if 65 \<le> k \<and> k \<le> 90 then Some (k - 55)
               else None)
      in case d of None \<Rightarrow> None | Some v \<Rightarrow> if v < b then Some v else None)"

fun py_digits :: "nat \<Rightarrow> nat \<Rightarrow> string \<Rightarrow> nat option" where
  "py_digits b acc [] = Some acc"
| "py_digits b acc (c # cs) =
     (if c = CHR ''_''
      then (case cs of
              [] \<Rightarrow> None
            | c' # cs' \<Rightarrow>
                (case digit_below b c' of
                   None \<Rightarrow> None
                 | Some d \<Rightarrow> py_digits b (acc * b + d) cs'))
      else (case digit_below b c of
              None \<Rightarrow> None
            | Some d \<Rightarrow> py_digits b (acc * b + d) cs))"

definition py_number :: "nat \<Rightarrow> string \<Rightarrow> nat option" where
  "py_number b s =
     (case s of
        [] \<Rightarrow> None
      | c # cs \<Rightarrow> (case digit_below b c of None \<Rightarrow> None | Some d \<Rightarrow> py_digits b d cs))"

definition strip_prefix16 :: "string \<Rightarrow> string" where
  "strip_prefix16 s =
     (case s of
        c0 # c1 # rest \<Rightarrow>
          (if c0 = CHR ''0'' \<and> (c1 = CHR ''x'' \<or> c1 = CHR ''X'')
           then (case rest of c2 # rest' \<Rightarrow> if c2 = CHR ''_'' then rest' else rest | [] \<Rightarrow> rest)
           else s)
      | _ \<Rightarrow> s)"

definition py_int :: "string \<Rightarrow> nat \<Rightarrow> int option" where
  "py_int s b =
     (let (negative, s1) =
            (case s of
               [] \<Rightarrow> (False, s)
             | c # cs \<Rightarrow> if c = CHR ''+'' then (False, cs)
                         else if c = CHR ''-'' then (True, cs) else (False, s));
          s2 = (if b = 16 then strip_prefix16 s1 else s1)
      in map_option (\<lambda>n. if negative then - int n else int n) (py_number b s2))"

text \<open>\<open>tokens[i]\<close> inside the \<open>try\<close>: \<open>None\<close> is IndexError.\<close>

definition token_at :: "string list \<Rightarrow> nat \<Rightarrow> string option" where
  "token_at tokens i = (if i < length tokens then Some (tokens ! i) else None)"

subsection \<open>The loader\<close>

text \<open>The constructor of \<open>HuffmanTableEntry\<close>: it raises what the conversions raise.\<close>

definition new_HuffmanTableEntry ::
  "(string \<Rightarrow> bool list outcome) \<Rightarrow> int \<Rightarrow> int \<Rightarrow> int \<Rightarrow> int \<Rightarrow> string
   \<Rightarrow> HuffmanTableEntry outcome" where
  "new_HuffmanTableEntry other_codes dict1 dict2 dict_data_length_in_bytes rank code =
     obind (int_to_bytes_big dict1 dict_data_length_in_bytes) (\<lambda>d1.
     obind (int_to_bytes_big dict2 dict_data_length_in_bytes) (\<lambda>d2.
     obind (bits_of_bin other_codes code) (\<lambda>bits.
       Returned \<lparr>dict1_value = d1, dict2_value = d2,
                 dictionary_data_length = dict_data_length_in_bytes,
                 huffman_code_rank = rank, huffman_code = code,
                 huffman_code_bits = bits\<rparr>)))"

text \<open>
  The statements of the \<open>try\<close> block that can raise, in the order of the source: the five
  fields of a line, or \<open>None\<close> when the bare \<open>except\<close> is taken.
\<close>

definition table_fields :: "string list \<Rightarrow> (int \<times> int \<times> int \<times> int \<times> string) option" where
  "table_fields tokens =
     Option.bind (token_at tokens 0) (\<lambda>t0. Option.bind (py_int t0 16) (\<lambda>dict1.
     Option.bind (token_at tokens 2) (\<lambda>t2. Option.bind (py_int t2 16) (\<lambda>dict2.
     Option.bind (token_at tokens 4) (\<lambda>t4. Option.bind (py_int t4 10) (\<lambda>dlen.
     Option.bind (token_at tokens 5) (\<lambda>t5. Option.bind (py_int t5 10) (\<lambda>rank.
     Option.bind (token_at tokens 6) (\<lambda>code.
       Some (dict1, dict2, dlen, rank, code))))))))))"

text \<open>
  \<open>process_huffman_table_file_line\<close>. The two counters are updated at the end of the
  \<open>try\<close> block, after every statement that can raise; the entry is built and stored
  after the block, so an error of the constructor leaves the function.
\<close>

definition process_huffman_table_file_line ::
  "(string \<Rightarrow> bool list outcome) \<Rightarrow> string \<Rightarrow> globals \<Rightarrow> unit outcome \<times> globals" where
  "process_huffman_table_file_line other_codes line g =
     (case table_fields (py_split line) of
        None \<Rightarrow> (Returned (), g)
      | Some (dict1, dict2, dlen, rank, code) \<Rightarrow>
          (let g1 = (if rank > longest_huffman_code_in_bits g
                     then g\<lparr>longest_huffman_code_in_bits := rank\<rparr> else g);
               g2 = (if rank < shortest_huffman_code_in_bits g1
                     then g1\<lparr>shortest_huffman_code_in_bits := rank\<rparr> else g1)
           in case new_HuffmanTableEntry other_codes dict1 dict2 dlen rank code of
                Raised e \<Rightarrow> (Raised e, g2)
              | Returned table_entry \<Rightarrow>
                  (Returned (),
                   g2\<lparr>huffman_table :=
                        (huffman_table g2)(huffman_code_bits table_entry \<mapsto> table_entry)\<rparr>)))"

text \<open>
  \<open>read_ascii_huffman_table_from_file\<close>, on the lines of the file: an error of a line
  ends the loop and leaves the function.
\<close>

fun read_ascii_huffman_table_from_file ::
  "(string \<Rightarrow> bool list outcome) \<Rightarrow> string list \<Rightarrow> globals \<Rightarrow> unit outcome \<times> globals" where
  "read_ascii_huffman_table_from_file other_codes [] g = (Returned (), g)"
| "read_ascii_huffman_table_from_file other_codes (line # lines) g =
     (case process_huffman_table_file_line other_codes line g of
        (Raised e, g') \<Rightarrow> (Raised e, g')
      | (Returned u, g') \<Rightarrow> read_ascii_huffman_table_from_file other_codes lines g')"

section \<open>The page decoder\<close>

text \<open>
  The output stream: its bytes and the position. A seek to a negative position raises;
  a write replaces or appends at the position (after a gap, the gap reads as zeros).
\<close>

record out_file =
  obytes :: "byte list"
  opos :: nat

definition out_seek :: "out_file \<Rightarrow> int \<Rightarrow> out_file outcome" where
  "out_seek f n = (if n < 0 then Raised OSError else Returned (f\<lparr>opos := nat n\<rparr>))"

definition out_write :: "out_file \<Rightarrow> byte list \<Rightarrow> out_file" where
  "out_write f bs =
     (if bs = [] then f
      else (let padded = obytes f @ replicate (opos f - length (obytes f)) 0
            in f\<lparr>obytes := take (opos f) padded @ bs @ drop (opos f + length bs) padded,
                 opos := opos f + length bs\<rparr>))"

text \<open>
  The bit buffer is a list of bits, the first bit of a byte being its most significant
  one. \<open>slice_to xs n\<close> is \<open>xs[0:n]\<close> and \<open>del_to xs n\<close> is \<open>del xs[0:n]\<close>, with
  Python's reading of a negative \<open>n\<close> (counted from the end).
\<close>

definition bits_of_byte :: "byte \<Rightarrow> bool list" where
  "bits_of_byte b = map (bit b) [7, 6, 5, 4, 3, 2, 1, 0]"

definition bits_of_bytes :: "byte list \<Rightarrow> bool list" where
  "bits_of_bytes bs = concat (map bits_of_byte bs)"

definition slice_to :: "'a list \<Rightarrow> int \<Rightarrow> 'a list" where
  "slice_to xs n = (if 0 \<le> n then take (nat n) xs else take (length xs - nat (- n)) xs)"

definition del_to :: "'a list \<Rightarrow> int \<Rightarrow> 'a list" where
  "del_to xs n = (if 0 \<le> n then drop (nat n) xs else drop (length xs - nat (- n)) xs)"

text \<open>
  \<open>int(n / 8) + (1 if n % 8 > 0 else 0)\<close>, the number of bytes that hold \<open>n\<close> bits.
\<close>

definition bytes_for_bits :: "int \<Rightarrow> int outcome" where
  "bytes_for_bits n =
     obind (int_of_quotient n 8) (\<lambda>q. Returned (q + (if n mod 8 > 0 then 1 else 0)))"

text \<open>
  The matching loop \<open>for nbits_of_hcode in range(longest_code_possible,
  shortest_huffman_code_in_bits - 1, -1)\<close>: the first candidate length, from the longest
  down, whose slice of the bit buffer is a key of the table, with the entry found.
\<close>

function match_code ::
  "(bool list \<rightharpoonup> HuffmanTableEntry) \<Rightarrow> bool list \<Rightarrow> int \<Rightarrow> int \<Rightarrow> (HuffmanTableEntry \<times> int) option"
where
  "match_code table bitbuffer nbits_of_hcode shortest =
     (if nbits_of_hcode < shortest then None
      else (case table (slice_to bitbuffer nbits_of_hcode) of
              Some found \<Rightarrow> Some (found, nbits_of_hcode)
            | None \<Rightarrow> match_code table bitbuffer (nbits_of_hcode - 1) shortest))"
  by pat_completeness auto
termination
  by (relation "measure (\<lambda>(t, b, n, s). nat (n - s + 1))") auto

declare match_code.simps [simp del]

text \<open>
  Which \<open>return\<close> statement ended a call: the one after a miss in the main loop
  (\<open>return -1\<close>), one of the two at the page limit, or the last one, after the loop over
  the bits left in the buffer.
\<close>

datatype page_exit = NoMatchingCode | PageCapReached | InputExhausted

definition dcode_to_write :: "int \<Rightarrow> HuffmanTableEntry \<Rightarrow> byte list" where
  "dcode_to_write selector found =
     (if selector = 1 then dict2_value found else dict1_value found)"

text \<open>
  The second \<open>while\<close> loop, over the bits left in the buffer when the input of the page
  is used up. \<open>None\<close> is a loop that does not end.
\<close>

partial_function (option) tail_loop ::
  "globals \<Rightarrow> int \<Rightarrow> bool list \<Rightarrow> int \<Rightarrow> int \<Rightarrow> out_file
   \<Rightarrow> ((int \<times> page_exit) \<times> out_file) option"
where
  "tail_loop g selector bitbuffer valid_bits_in_bitbuffer write_position outp =
     (if shortest_huffman_code_in_bits g \<le> int (length bitbuffer) then
        (let bitbuffer1 = del_to bitbuffer (int (length bitbuffer) - valid_bits_in_bitbuffer);
             longest_code_possible =
               min (longest_huffman_code_in_bits g) valid_bits_in_bitbuffer
         in case match_code (huffman_table g) bitbuffer1 longest_code_possible
                   (shortest_huffman_code_in_bits g) of
              Some (found, nbits_of_hcode) \<Rightarrow>
                (let outp1 = out_write outp (dcode_to_write selector found);
                     write_position1 =
                       write_position + int (length (dcode_to_write selector found))
                 in if write_position1 \<ge> HUFFMAN_PAGE_DECODED_SIZE_MAX
                    then Some ((write_position1, PageCapReached), outp1)
                    else tail_loop g selector bitbuffer1
                           (valid_bits_in_bitbuffer - nbits_of_hcode) write_position1 outp1)
            | None \<Rightarrow> tail_loop g selector [] 0 write_position outp)
      else Some ((write_position, InputExhausted), outp))"

declare tail_loop.simps [code]

text \<open>
  The first \<open>while\<close> loop, which runs while \<open>read_position < end_page_position\<close>, and
  what follows it. The arguments after the table are the values fixed before the loop
  (selector, \<open>end_page_position\<close>, \<open>bitbuffer_topoff_level\<close>) and the variables of the
  loop. An error of the refill (the division or the read) leaves the function.
\<close>

partial_function (option) main_loop ::
  "globals \<Rightarrow> int \<Rightarrow> int \<Rightarrow> int \<Rightarrow> int \<Rightarrow> int \<Rightarrow> byte list \<Rightarrow> bool list \<Rightarrow> int
   \<Rightarrow> in_file \<Rightarrow> out_file \<Rightarrow> ((int \<times> page_exit) outcome \<times> in_file \<times> out_file) option"
where
  "main_loop g selector end_page_position bitbuffer_topoff_level read_position write_position
     in_data bitbuffer valid_bits_in_bitbuffer inp outp =
     (if read_position < end_page_position then
        (let new_data_size_in_bits = 8 * int (length in_data);
             bitbuffer1 = del_to bitbuffer (int (length bitbuffer) - valid_bits_in_bitbuffer);
             bitbuffer2 = (if length in_data > 0 then bitbuffer1 @ bits_of_bytes in_data
                           else bitbuffer1);
             valid1 = valid_bits_in_bitbuffer + new_data_size_in_bits;
             longest_code_possible = min (longest_huffman_code_in_bits g) valid1
         in case match_code (huffman_table g) bitbuffer2 longest_code_possible
                   (shortest_huffman_code_in_bits g) of
              None \<Rightarrow> Some (Returned (- 1, NoMatchingCode), inp, outp)
            | Some (found, nbits_of_hcode) \<Rightarrow>
                (let outp1 = out_write outp (dcode_to_write selector found);
                     write_position1 =
                       write_position + int (length (dcode_to_write selector found))
                 in if write_position1 \<ge> HUFFMAN_PAGE_DECODED_SIZE_MAX
                    then Some (Returned (write_position1, PageCapReached), inp, outp1)
                    else if valid1 - nbits_of_hcode < longest_huffman_code_in_bits g
                    then (case bytes_for_bits bitbuffer_topoff_level of
                            Raised e \<Rightarrow> Some (Raised e, inp, outp1)
                          | Returned bytes_to_read_next \<Rightarrow>
                              (case file_read inp
                                      (min bytes_to_read_next
                                           (end_page_position - read_position)) of
                                 Raised e \<Rightarrow> Some (Raised e, inp, outp1)
                               | Returned (in_data1, inp1) \<Rightarrow>
                                   main_loop g selector end_page_position bitbuffer_topoff_level
                                     (read_position + int (length in_data1)) write_position1
                                     in_data1 bitbuffer2 (valid1 - nbits_of_hcode) inp1 outp1))
                    else main_loop g selector end_page_position bitbuffer_topoff_level
                           read_position write_position1 [] bitbuffer2
                           (valid1 - nbits_of_hcode) inp outp1))
      else map_option (\<lambda>(r, outp1). (Returned r, inp, outp1))
             (tail_loop g selector
                (del_to bitbuffer (int (length bitbuffer) - valid_bits_in_bitbuffer))
                valid_bits_in_bitbuffer write_position outp))"

declare main_loop.simps [code]

text \<open>
  \<open>decode_page_from_input_file_i\<close>. The table and the two counters are read from the
  globals. The result has the returned value (with the exit taken) or the error raised,
  and the input file, the LUT entry and the output file as the call leaves them; \<open>None\<close>
  is a call that does not return.
\<close>

definition decode_page_from_input_file_i ::
  "globals \<Rightarrow> in_file \<Rightarrow> LUTentry \<Rightarrow> out_file \<Rightarrow> int \<Rightarrow> bool
   \<Rightarrow> ((int \<times> page_exit) outcome \<times> in_file \<times> LUTentry \<times> out_file) option"
where
  "decode_page_from_input_file_i g inp lut_entry_for_page outp offset_into_output
     use_relative_seek =
     (case out_seek outp offset_into_output of
        Raised e \<Rightarrow> Some (Raised e, inp, lut_entry_for_page, outp)
      | Returned outp0 \<Rightarrow>
          (let bitbuffer_topoff_level = longest_huffman_code_in_bits g * 10;
               lut1 = (if size_field lut_entry_for_page = 0
                       then lut_entry_for_page\<lparr>size_field := HUFFMAN_PAGE_DECODED_SIZE_MAX\<rparr>
                       else lut_entry_for_page)
           in case (if use_relative_seek then seek_cur inp (offset lut1)
                    else seek_set inp (offset lut1)) of
                Raised e \<Rightarrow> Some (Raised e, inp, lut1, outp0)
              | Returned inp0 \<Rightarrow>
                  (let end_page_position = offset lut1 + size_field lut1
                   in case bytes_for_bits (longest_huffman_code_in_bits g) of
                        Raised e \<Rightarrow> Some (Raised e, inp0, lut1, outp0)
                      | Returned bytes_for_longest_code \<Rightarrow>
                          (case file_read inp0
                                  (min bytes_for_longest_code (end_page_position - 0)) of
                             Raised e \<Rightarrow> Some (Raised e, inp0, lut1, outp0)
                           | Returned (in_data, inp1) \<Rightarrow>
                               map_option (\<lambda>(r, inp2, outp1). (r, inp2, lut1, outp1))
                                 (main_loop g (dictionary_selector lut1) end_page_position
                                    bitbuffer_topoff_level (0 + int (length in_data)) 0
                                    in_data [] 0 inp1 outp0)))))"

subsection \<open>What the specification says about a LUT word\<close>

text \<open>
  These three definitions follow the words of the specification, not the code: the
  selector is read from the top two bits of the selector byte, and the offset is assembled
  from the low six bits of that byte and the three other bytes. They are compared with
  \<open>read_lut\<close> below.
\<close>

definition spec_lut_offset :: "bool \<Rightarrow> byte list \<Rightarrow> int" where
  "spec_lut_offset reversed r =
     (if reversed
      then push_bit 24 (uint (r ! 3) AND 0x3F) OR push_bit 16 (uint (r ! 2))
             OR push_bit 8 (uint (r ! 1)) OR uint (r ! 0)
      else push_bit 24 (uint (r ! 0) AND 0x3F) OR push_bit 16 (uint (r ! 1))
             OR push_bit 8 (uint (r ! 2)) OR uint (r ! 3))"

definition spec_lut_selector :: "bool \<Rightarrow> byte list \<Rightarrow> int option" where
  "spec_lut_selector reversed r =
     (let sel_byte = (if reversed then r ! 3 else r ! 0)
      in if drop_bit 6 sel_byte = 3 then Some 1
         else if drop_bit 6 sel_byte = 1 then Some 0
         else None)"

definition spec_lut_word :: "bool \<Rightarrow> byte list \<Rightarrow> (int \<times> int) option" where
  "spec_lut_word reversed r =
     map_option (\<lambda>sel. (spec_lut_offset reversed r, sel)) (spec_lut_selector reversed r)"

text \<open>Predicates and helpers used to state the properties of the returned list.\<close>

definition lut_key :: "LUTentry \<Rightarrow> int \<times> int" where
  "lut_key e = (offset e, dictionary_selector e)"

definition lut_sizes_ok :: "LUTentry list \<Rightarrow> bool" where
  "lut_sizes_ok lut \<longleftrightarrow>
     (\<forall>i < length lut - 1. size_field (lut ! i) = offset (lut ! Suc i) - offset (lut ! i))
     \<and> (lut \<noteq> [] \<longrightarrow> size_field (last lut) = 0)"

definition patch_previous :: "LUTentry list \<Rightarrow> int \<Rightarrow> LUTentry list" where
  "patch_previous lut off =
     (if lut = [] then []
      else lut[length lut - 1 := (lut ! (length lut - 1))
                 \<lparr>size_field := off - offset (lut ! (length lut - 1))\<rparr>])"

subsection \<open>Invariants of the loaded table\<close>

text \<open>
  What holds of every entry the loader stores: its two dictionary values have the length
  of its length field. A table is in order when every entry is stored under its own bits.
\<close>

definition entry_lengths_ok :: "HuffmanTableEntry \<Rightarrow> bool" where
  "entry_lengths_ok e \<longleftrightarrow>
     length (dict1_value e) = length (dict2_value e)
     \<and> int (length (dict1_value e)) = dictionary_data_length e"

definition table_ok :: "globals \<Rightarrow> bool" where
  "table_ok g \<longleftrightarrow>
     (\<forall>k e. huffman_table g k = Some e \<longrightarrow> huffman_code_bits e = k \<and> entry_lengths_ok e)"

section \<open>Properties of the lookup-table reader\<close>

subsection \<open>Masks on a byte\<close>

lemma take_bit_8_uint: "take_bit 8 (uint (b :: 8 word)) = uint b"
  by (simp add: take_bit_int_eq_self_iff) (use uint_bounded [of b] in simp)

lemma uint_and_FF: "uint (b :: 8 word) AND 0xFF = uint b"
proof -
  have "uint b AND mask 8 = take_bit 8 (uint b)" by (simp add: take_bit_eq_mask)
  also have "\<dots> = uint b" by (rule take_bit_8_uint)
  finally show ?thesis by (simp add: mask_eq_exp_minus_1)
qed

lemma uint_and_C0: "uint (b :: 8 word) AND 0xC0 = 64 * (uint b div 64)"
proof -
  have lt: "uint b < 256" using uint_bounded [of b] by simp
  have "drop_bit 6 (uint b AND 0xC0) = drop_bit 6 (uint b) AND mask 2"
    by (simp add: mask_eq_exp_minus_1)
  also have "\<dots> = take_bit 2 (drop_bit 6 (uint b))" by (simp add: take_bit_eq_mask)
  also have "\<dots> = drop_bit 6 (uint b)"
  proof -
    have "0 \<le> uint b div 64" by (simp add: pos_imp_zdiv_nonneg_iff)
    moreover have "uint b div 64 < 4" using lt by simp
    ultimately
    show ?thesis by (simp add: take_bit_int_eq_self_iff drop_bit_eq_div)
  qed
  finally have d: "drop_bit 6 (uint b AND 0xC0) = uint b div 64" by (simp add: drop_bit_eq_div)
  have t: "take_bit 6 (uint b AND 0xC0) = 0" by simp
  from bits_ident [of 6 "uint b AND 0xC0"] d t show ?thesis
    by (simp add: push_bit_eq_mult)
qed

lemma top2_word: "uint (drop_bit 6 (b :: 8 word)) = uint b div 64"
  by (simp add: drop_bit_eq_div uint_div_distrib)

lemma sel_C0: "(uint (b :: 8 word) AND 0xC0 = 0xC0) \<longleftrightarrow> drop_bit 6 b = 3"
proof -
  have "drop_bit 6 b = 3 \<longleftrightarrow> uint (drop_bit 6 b) = uint (3 :: 8 word)"
    by (simp only: word_uint_eq_iff)
  also have "\<dots> \<longleftrightarrow> uint b div 64 = 3" by (simp add: top2_word)
  finally show ?thesis by (simp add: uint_and_C0)
qed

lemma sel_40: "(uint (b :: 8 word) AND 0xC0 = 0x40) \<longleftrightarrow> drop_bit 6 b = 1"
proof -
  have "drop_bit 6 b = 1 \<longleftrightarrow> uint (drop_bit 6 b) = uint (1 :: 8 word)"
    by (simp only: word_uint_eq_iff)
  also have "\<dots> \<longleftrightarrow> uint b div 64 = 1" by (simp add: top2_word)
  finally show ?thesis by (simp add: uint_and_C0)
qed

subsection \<open>One iteration of the loop\<close>

lemma and_3F_FF: "(x AND 0x3F) AND 0xFF = x AND (0x3F :: int)"
  by (simp add: and.assoc)

lemma lut_offset_word:
  assumes "length w = 4"
  shows "lut_offset rbo w = Returned (spec_lut_offset rbo w)"
  using assms
  by (simp add: lut_offset_def spec_lut_offset_def byte_at_def obind_def uint_and_FF and_3F_FF
        del: push_bit_and)

lemma file_read_word:
  assumes "take 4 (drop (fpos f) (fbytes f)) = w" and "length w = 4"
  shows "file_read f 4 = Returned (w, f\<lparr>fpos := fpos f + 4\<rparr>)"
proof -
  from assms have "length (take 4 (drop (fpos f) (fbytes f))) = 4" by simp
  then have "min (length (fbytes f) - fpos f) 4 = 4" by simp
  with assms show ?thesis by (simp add: file_read_def sys_maxsize_def Let_def)
qed

lemma selector_byte_word:
  assumes "length w = 4"
  shows "byte_at w (if rbo then 3 else 0) = Returned (uint (if rbo then w ! 3 else w ! 0))"
  using assms by (simp add: byte_at_def)

lemma read_lut_loop_skip:
  assumes "file_read f 4 = Returned (w, f')" and "length w = 4" and "position < n"
    and "spec_lut_word rbo w = None"
  shows "read_lut_loop rbo n f position i lut = read_lut_loop rbo n f' (position + 4) i lut"
proof -
  from assms(4) have "drop_bit 6 (if rbo then w ! 3 else w ! 0) \<noteq> 3"
    and "drop_bit 6 (if rbo then w ! 3 else w ! 0) \<noteq> 1"
    by (auto simp: spec_lut_word_def spec_lut_selector_def Let_def split: if_splits)
  then have "uint (if rbo then w ! 3 else w ! 0) AND 0xC0 \<noteq> 0xC0"
    and "uint (if rbo then w ! 3 else w ! 0) AND 0xC0 \<noteq> 0x40"
    by (simp_all only: sel_C0 sel_40 not_False_eq_True)
  with assms(1,3) selector_byte_word [OF assms(2), of rbo] show ?thesis
    by (subst read_lut_loop.simps) (cases rbo; simp add: Let_def)
qed

lemma patch_previous_eq:
  assumes "i = int (length lut)" and "0 < i"
  shows "lut[nat (i - 1) := (lut ! nat (i - 1))\<lparr>size_field := off - offset (lut ! nat (i - 1))\<rparr>]
         = patch_previous lut off \<and> nat (i - 1) < length lut"
proof -
  from assms have "nat (i - 1) = length lut - 1" and "lut \<noteq> []" by auto
  then show ?thesis by (simp add: patch_previous_def)
qed

lemma read_lut_loop_accept:
  assumes "file_read f 4 = Returned (w, f')" and "length w = 4" and "position < n"
    and "spec_lut_word rbo w = Some (off, sel)" and "i = int (length lut)"
  shows "read_lut_loop rbo n f position i lut =
         read_lut_loop rbo n f' (position + 4) (i + 1) (patch_previous lut off @ [new_LUTentry off sel])"
proof -
  let ?b = "uint (if rbo then w ! 3 else w ! 0)"
  from assms(4) have off: "off = spec_lut_offset rbo w"
    and sel: "spec_lut_selector rbo w = Some sel"
    by (auto simp: spec_lut_word_def)
  from sel have valid: "\<not> (?b AND 0xC0 \<noteq> 0xC0 \<and> ?b AND 0xC0 \<noteq> 0x40)"
    and sel': "(if ?b AND 0xC0 = 0xC0 then 1 else 0) = sel"
    by (auto simp: spec_lut_selector_def Let_def sel_C0 sel_40 split: if_splits)
  show ?thesis
  proof (cases "0 < i")
    case True
    note pp = patch_previous_eq [OF assms(5) True, where off = off]
    from True assms(1,3) selector_byte_word [OF assms(2), of rbo] valid sel'
      lut_offset_word [OF assms(2), of rbo] off pp
    show ?thesis
      by (subst read_lut_loop.simps) (cases rbo; auto simp: Let_def new_LUTentry_def)
  next
    case False
    with assms(5) have "lut = []" by simp
    with False assms(1,3) selector_byte_word [OF assms(2), of rbo] valid sel'
      lut_offset_word [OF assms(2), of rbo] off
    show ?thesis
      by (subst read_lut_loop.simps) (cases rbo; auto simp: Let_def new_LUTentry_def patch_previous_def)
  qed
qed

lemma lut_sizes_ok_step:
  assumes "lut_sizes_ok lut"
  shows "lut_sizes_ok (patch_previous lut off @ [new_LUTentry off sel])"
proof (cases "lut = []")
  case True
  then show ?thesis by (simp add: lut_sizes_ok_def patch_previous_def new_LUTentry_def)
next
  case False
  let ?k = "length lut - 1"
  let ?p = "lut[?k := (lut ! ?k)\<lparr>size_field := off - offset (lut ! ?k)\<rparr>]"
  from False have pp: "patch_previous lut off = ?p" by (simp add: patch_previous_def)
  have "size_field ((?p @ [new_LUTentry off sel]) ! i)
          = offset ((?p @ [new_LUTentry off sel]) ! Suc i) - offset ((?p @ [new_LUTentry off sel]) ! i)"
    if "i < length lut" for i
  proof (cases "i = ?k")
    case True
    with False show ?thesis by (simp add: nth_append new_LUTentry_def)
  next
    case False
    with that have i: "i < ?k" by simp
    with assms have "size_field (lut ! i) = offset (lut ! Suc i) - offset (lut ! i)"
      by (simp add: lut_sizes_ok_def)
    moreover from i have "Suc i < length lut" by simp
    ultimately show ?thesis using i by (simp add: nth_append nth_list_update)
  qed
  then show ?thesis by (simp add: lut_sizes_ok_def pp new_LUTentry_def)
qed

lemma lut_sizes_ok_patched:
  assumes "lut_sizes_ok lut" and "lut \<noteq> []"
  shows "lut_sizes_ok
           (lut[nat (int (length lut) - 1) :=
                  (lut ! nat (int (length lut) - 1))
                    \<lparr>size_field := offset (new_LUTentry off sel)
                        - offset (lut ! nat (int (length lut) - 1))\<rparr>]
            @ [new_LUTentry off sel])"
proof -
  from assms(2) have "0 < int (length lut)" by simp
  from patch_previous_eq [OF refl this, where off = off] lut_sizes_ok_step [OF assms(1), of off sel]
  show ?thesis by (simp add: new_LUTentry_def)
qed

lemma lut_sizes_ok_single: "lut_sizes_ok [new_LUTentry off sel]"
  by (simp add: lut_sizes_ok_def new_LUTentry_def)

lemma read_lut_loop_sizes:
  "read_lut_loop rbo n f position i lut = (Returned lut', f') \<Longrightarrow> i = int (length lut)
   \<Longrightarrow> lut_sizes_ok lut \<Longrightarrow> lut_sizes_ok lut'"
proof (induction rbo n f position i lut rule: read_lut_loop.induct)
  case (1 rbo n f position i lut)
  show ?case
  proof (cases "position < n")
    case False
    with "1.prems" show ?thesis by (subst (asm) read_lut_loop.simps) simp
  next
    case True
    show ?thesis
    proof (cases "file_read f 4")
      case (Raised e)
      with "1.prems" True show ?thesis by (subst (asm) read_lut_loop.simps) simp
    next
      case (Returned a)
      obtain rawdata f1 where a: "a = (rawdata, f1)" by (cases a)
      show ?thesis
        using "1.prems" "1.IH" True Returned a
        by (subst (asm) read_lut_loop.simps)
           (auto simp: Let_def lut_sizes_ok_patched lut_sizes_ok_single
              split: outcome.splits if_splits)
    qed
  qed
qed

lemma read_lut_loop_words:
  assumes "\<forall>w \<in> set ws. length w = 4"
    and "take (4 * length ws) (drop (fpos f) (fbytes f)) = concat ws"
    and "i = int (length lut)"
    and "n \<le> position + 4 * int (length ws)" and "position + 4 * int (length ws) < n + 4"
  shows "\<exists>lut'. read_lut_loop rbo n f position i lut
               = (Returned lut', f\<lparr>fpos := fpos f + 4 * length ws\<rparr>)
             \<and> map lut_key lut' = map lut_key lut @ List.map_filter (spec_lut_word rbo) ws"
  using assms
proof (induction ws arbitrary: f position i lut)
  case Nil
  then show ?case by (subst read_lut_loop.simps) simp
next
  case (Cons w ws)
  let ?f' = "f\<lparr>fpos := fpos f + 4\<rparr>"
  from Cons.prems have len: "length w = 4" by simp
  from Cons.prems(2) have "take (4 + 4 * length ws) (drop (fpos f) (fbytes f)) = w @ concat ws"
    by simp
  then have tk: "take 4 (drop (fpos f) (fbytes f)) @ take (4 * length ws) (drop (fpos f + 4) (fbytes f)) = w @ concat ws"
    by (simp add: take_add add.commute)
  have l4: "length (take 4 (drop (fpos f) (fbytes f))) = 4"
  proof -
    have "length (take (4 * length (w # ws)) (drop (fpos f) (fbytes f)))
            \<le> length (drop (fpos f) (fbytes f))"
      by simp
    then have "length (w @ concat ws) \<le> length (drop (fpos f) (fbytes f))"
      by (simp only: Cons.prems(2) concat.simps)
    with len show ?thesis by simp
  qed
  from tk l4 len have w: "take 4 (drop (fpos f) (fbytes f)) = w"
    and rest: "take (4 * length ws) (drop (fpos ?f') (fbytes ?f')) = concat ws"
    by simp_all
  from w len have rd: "file_read f 4 = Returned (w, ?f')" by (rule file_read_word)
  from Cons.prems have lt: "position < n" by simp
  from Cons.prems have n': "n \<le> (position + 4) + 4 * int (length ws)"
    and n'': "(position + 4) + 4 * int (length ws) < n + 4"
    by simp_all
  from Cons.prems have ws4: "\<forall>w \<in> set ws. length w = 4" by simp
  have pos': "?f'\<lparr>fpos := fpos ?f' + 4 * length ws\<rparr> = f\<lparr>fpos := fpos f + 4 * length (w # ws)\<rparr>"
    by simp
  show ?case
  proof (cases "spec_lut_word rbo w")
    case None
    from Cons.IH [OF ws4 rest Cons.prems(3) n' n'']
    obtain lut' where "read_lut_loop rbo n ?f' (position + 4) i lut
               = (Returned lut', ?f'\<lparr>fpos := fpos ?f' + 4 * length ws\<rparr>)"
      and "map lut_key lut' = map lut_key lut @ List.map_filter (spec_lut_word rbo) ws"
      by blast
    with None read_lut_loop_skip [OF rd len lt None, of i lut] pos' show ?thesis
      by simp
  next
    case (Some a)
    obtain off sel where a: "a = (off, sel)" by (cases a)
    let ?lut = "patch_previous lut off @ [new_LUTentry off sel]"
    have i': "i + 1 = int (length ?lut)" using Cons.prems(3) by (simp add: patch_previous_def)
    have keys: "map lut_key ?lut = map lut_key lut @ [(off, sel)]"
      by (auto simp: patch_previous_def lut_key_def new_LUTentry_def map_update
            intro!: nth_equalityI simp: nth_list_update)
    from Cons.IH [OF ws4 rest i' n' n'']
    obtain lut' where "read_lut_loop rbo n ?f' (position + 4) (i + 1) ?lut
               = (Returned lut', ?f'\<lparr>fpos := fpos ?f' + 4 * length ws\<rparr>)"
      and "map lut_key lut' = map lut_key ?lut @ List.map_filter (spec_lut_word rbo) ws"
      by blast
    with Some a keys read_lut_loop_accept [OF rd len lt _ Cons.prems(3), of rbo off sel] pos'
    show ?thesis by simp
  qed
qed

subsection \<open>The claims about the lookup table\<close>

text \<open>
  Claim C4. Every 4-byte word that \<open>read_lut\<close> processes is decoded as the
  specification says: with the top two bits of the selector byte (\<open>r[3]\<close> in reversed
  order, \<open>r[0]\<close> otherwise) equal to \<open>0b11\<close> the entry's selector is 1, with
  \<open>0b01\<close> it is 0, and any other word gives no entry and the loop goes on with the next
  word; the offset of an accepted word is
  \<open>((r[0] & 0x3F) << 24) | (r[1] << 16) | (r[2] << 8) | r[3]\<close>, with the indices
  mirrored in reversed order. Stated for a file that holds the words \<open>ws\<close> at its
  position, and a byte count \<open>n\<close> that makes the loop run once for each of them (the
  loop reads four bytes as long as \<open>position < n\<close>): the pairs (offset, selector) of
  the returned entries are, in order, what \<open>spec_lut_word\<close> gives for the accepted
  words.
\<close>

theorem read_lut_decodes_each_word:
  assumes "\<forall>w \<in> set ws. length w = 4"
    and "take (4 * length ws) (drop (fpos f) (fbytes f)) = concat ws"
    and "n \<le> 4 * int (length ws)" and "4 * int (length ws) < n + 4"
  shows "\<exists>lut. read_lut f n rbo = (Returned lut, f\<lparr>fpos := fpos f + 4 * length ws\<rparr>)
               \<and> map lut_key lut = List.map_filter (spec_lut_word rbo) ws"
  using read_lut_loop_words [OF assms(1,2), of 0 "[]" n 0 rbo] assms(3,4)
  by (simp add: read_lut_def)

theorem read_lut_decodes_each_word_witness:
  "\<exists>lut. read_lut \<lparr>fbytes = [0x40, 0, 0, 5, 0x80, 1, 1, 1, 0xC0, 0, 1, 3], fpos = 0\<rparr> 10 False
           = (Returned lut, \<lparr>fbytes = [0x40, 0, 0, 5, 0x80, 1, 1, 1, 0xC0, 0, 1, 3], fpos = 12\<rparr>)
         \<and> map lut_key lut = [(5, 0), (259, 1)]"
  using read_lut_decodes_each_word
    [of "[[0x40, 0, 0, 5], [0x80, 1, 1, 1], [0xC0, 0, 1, 3]]"
        "\<lparr>fbytes = [0x40, 0, 0, 5, 0x80, 1, 1, 1, 0xC0, 0, 1, 3], fpos = 0\<rparr>" 10 False]
  by (auto simp: map_filter_simps spec_lut_word_def spec_lut_selector_def spec_lut_offset_def)

text \<open>
  Claim C5 fails on the code: the docstring of \<open>read_lut\<close> promises what the claim says
  (``The entries are listed in ascending numeric order of offset''), but the function
  appends the entries in the order of the words of the input and neither sorts nor checks
  the offsets. Two valid words with the offsets 5 and 3 give a list whose second offset is
  below the first, and a first entry of size \<open>-2\<close>.
\<close>

theorem read_lut_not_ascending:
  "read_lut \<lparr>fbytes = [0x40, 0, 0, 5, 0x40, 0, 0, 3], fpos = 0\<rparr> 8 False
     = (Returned [\<lparr>offset = 5, dictionary_selector = 0, size_field = - 2\<rparr>,
                  \<lparr>offset = 3, dictionary_selector = 0, size_field = 0\<rparr>],
        \<lparr>fbytes = [0x40, 0, 0, 5, 0x40, 0, 0, 3], fpos = 8\<rparr>)
   \<and> \<not> offset \<lparr>offset = 5, dictionary_selector = 0, size_field = - 2\<rparr>
         < offset \<lparr>offset = 3, dictionary_selector = 0, size_field = 0\<rparr>"
  by code_simp

text \<open>
  Claim C6. In every list that \<open>read_lut\<close> returns, each entry but the last has a size
  equal to the next entry's offset minus its own, and the last entry has size 0.
\<close>

theorem read_lut_sizes:
  assumes "read_lut f n rbo = (Returned lut, f')"
  shows "(\<forall>i. Suc i < length lut \<longrightarrow>
              size_field (lut ! i) = offset (lut ! Suc i) - offset (lut ! i))
         \<and> (lut \<noteq> [] \<longrightarrow> size_field (last lut) = 0)"
proof -
  from assms have l: "read_lut_loop rbo n f 0 0 [] = (Returned lut, f')"
    by (simp add: read_lut_def)
  have "lut_sizes_ok lut"
    by (rule read_lut_loop_sizes [OF l]) (simp_all add: lut_sizes_ok_def)
  then show ?thesis by (auto simp: lut_sizes_ok_def)
qed

theorem read_lut_sizes_witness:
  "read_lut \<lparr>fbytes = [0x40, 0, 0, 5, 0xC0, 0, 1, 3, 0x41, 2, 3, 4], fpos = 0\<rparr> 12 False
     = (Returned [\<lparr>offset = 5, dictionary_selector = 0, size_field = 254\<rparr>,
                  \<lparr>offset = 259, dictionary_selector = 1, size_field = 16908801\<rparr>,
                  \<lparr>offset = 16909060, dictionary_selector = 0, size_field = 0\<rparr>],
        \<lparr>fbytes = [0x40, 0, 0, 5, 0xC0, 0, 1, 3, 0x41, 2, 3, 4], fpos = 12\<rparr>)
   \<and> (254 :: int) = 259 - 5 \<and> (16908801 :: int) = 16909060 - 259"
proof -
  have r: "read_lut \<lparr>fbytes = [0x40, 0, 0, 5, 0xC0, 0, 1, 3, 0x41, 2, 3, 4], fpos = 0\<rparr> 12 False
     = (Returned [\<lparr>offset = 5, dictionary_selector = 0, size_field = 254\<rparr>,
                  \<lparr>offset = 259, dictionary_selector = 1, size_field = 16908801\<rparr>,
                  \<lparr>offset = 16909060, dictionary_selector = 0, size_field = 0\<rparr>],
        \<lparr>fbytes = [0x40, 0, 0, 5, 0xC0, 0, 1, 3, 0x41, 2, 3, 4], fpos = 12\<rparr>)"
    by code_simp
  from read_lut_sizes [OF r] have
    "size_field \<lparr>offset = 5, dictionary_selector = 0, size_field = 254\<rparr> = 259 - 5"
    by simp
  with r show ?thesis by simp
qed

text \<open>
  Claim C10. For a code object entry whose \<open>is_huffman_compressed\<close> flag is false,
  \<open>read_lut_of_code_object\<close> returns \<open>None\<close> and the input file is as it was: no
  seek, no read, the position unchanged.
\<close>

theorem read_lut_of_code_object_not_huffman:
  assumes "\<not> is_huffman_compressed target_code_object_entry"
  shows "read_lut_of_code_object f target_code_object_entry debug_prints = (Returned None, f)"
  using assms by (simp add: read_lut_of_code_object_def)

theorem read_lut_of_code_object_not_huffman_witness:
  "read_lut_of_code_object \<lparr>fbytes = [0x40, 0, 0, 5], fpos = 2\<rparr>
     \<lparr>in_partition = \<lparr>offset_of_cdt_header = 0, partition_size = 4, partition_name = ''FTPR''\<rparr>,
      rel_offset_of_data_in_partition = 0, object_size = 4096, object_name = ''kernel'',
      is_huffman_compressed = False\<rparr> True
   = (Returned None, \<lparr>fbytes = [0x40, 0, 0, 5], fpos = 2\<rparr>)"
  by (rule read_lut_of_code_object_not_huffman) simp

section \<open>Properties of the table loader\<close>

subsection \<open>The conversions\<close>

lemma length_be_bytes: "length (be_bytes n v) = n"
  by (induction n arbitrary: v) simp_all

lemma int_to_bytes_big_fits:
  assumes "0 \<le> len" and "len \<le> sys_maxsize" and "0 \<le> v" and "v < 256 ^ nat len"
  shows "int_to_bytes_big v len = Returned (be_bytes (nat len) (nat v))"
proof -
  from assms have "\<not> sys_maxsize < len" and "\<not> len < 0" and "\<not> v < 0"
    and "\<not> 256 ^ nat len \<le> v"
    by simp_all
  then show ?thesis unfolding int_to_bytes_big_def by (simp only: if_False)
qed

lemma int_to_bytes_big_length:
  assumes "int_to_bytes_big v len = Returned bs"
  shows "int (length bs) = len"
proof -
  have big: "\<not> sys_maxsize < len"
  proof
    assume "sys_maxsize < len"
    with assms show False by (simp add: int_to_bytes_big_def)
  qed
  have neg: "\<not> len < 0"
  proof
    assume "len < 0"
    with assms big show False by (simp add: int_to_bytes_big_def)
  qed
  have "int_to_bytes_big v len = Raised OverflowError \<or> bs = be_bytes (nat len) (nat v)"
  proof (cases "v < 0 \<or> 256 ^ nat len \<le> v")
    case True
    with neg big show ?thesis unfolding int_to_bytes_big_def by (simp only: if_False) auto
  next
    case False
    then have "\<not> v < 0" and "\<not> 256 ^ nat len \<le> v" by blast+
    with neg big have "int_to_bytes_big v len = Returned (be_bytes (nat len) (nat v))"
      unfolding int_to_bytes_big_def by (simp only: if_False)
    with assms show ?thesis by simp
  qed
  with assms have "bs = be_bytes (nat len) (nat v)" by simp
  with neg show ?thesis by (simp add: length_be_bytes)
qed

lemma bits_of_bin_binary:
  assumes "binary_digits code"
  shows "bits_of_bin other_codes code = Returned (map (\<lambda>c. c = CHR ''1'') code)"
  using assms unfolding bits_of_bin_def by (rule if_P)

subsection \<open>The fields of a line\<close>

lemma table_fields_None:
  assumes "length tokens < 7
           \<or> py_int (tokens ! 0) 16 = None \<or> py_int (tokens ! 2) 16 = None
           \<or> py_int (tokens ! 4) 10 = None \<or> py_int (tokens ! 5) 10 = None"
  shows "table_fields tokens = None"
proof (cases "length tokens < 7")
  case True
  then have "token_at tokens 6 = None" by (simp add: token_at_def)
  then show ?thesis
    by (simp add: table_fields_def Option.bind_eq_None_conv)
next
  case False
  then have t: "token_at tokens 0 = Some (tokens ! 0)" "token_at tokens 2 = Some (tokens ! 2)"
    "token_at tokens 4 = Some (tokens ! 4)" "token_at tokens 5 = Some (tokens ! 5)"
    by (auto simp: token_at_def)
  from False assms
  have "py_int (tokens ! 0) 16 = None \<or> py_int (tokens ! 2) 16 = None
           \<or> py_int (tokens ! 4) 10 = None \<or> py_int (tokens ! 5) 10 = None"
    by simp
  then show ?thesis
    by (auto simp: table_fields_def t Option.bind_eq_None_conv)
qed

lemma table_fields_Some:
  assumes "7 \<le> length tokens"
    and "py_int (tokens ! 0) 16 = Some dict1" and "py_int (tokens ! 2) 16 = Some dict2"
    and "py_int (tokens ! 4) 10 = Some dlen" and "py_int (tokens ! 5) 10 = Some rank"
  shows "table_fields tokens = Some (dict1, dict2, dlen, rank, tokens ! 6)"
proof -
  from assms(1) have t: "token_at tokens 0 = Some (tokens ! 0)"
    "token_at tokens 2 = Some (tokens ! 2)" "token_at tokens 4 = Some (tokens ! 4)"
    "token_at tokens 5 = Some (tokens ! 5)" "token_at tokens 6 = Some (tokens ! 6)"
    by (auto simp: token_at_def)
  show ?thesis by (simp add: table_fields_def t assms(2-5))
qed

subsection \<open>One line\<close>

lemma process_line_skip:
  assumes "table_fields (py_split line) = None"
  shows "process_huffman_table_file_line other_codes line g = (Returned (), g)"
  using assms by (simp add: process_huffman_table_file_line_def)

lemma counters_moved:
  "(let g1 = (if rank > longest_huffman_code_in_bits g
              then g\<lparr>longest_huffman_code_in_bits := rank\<rparr> else g)
    in if rank < shortest_huffman_code_in_bits g1
       then g1\<lparr>shortest_huffman_code_in_bits := rank\<rparr> else g1)
   = g\<lparr>longest_huffman_code_in_bits := max (longest_huffman_code_in_bits g) rank,
        shortest_huffman_code_in_bits := min (shortest_huffman_code_in_bits g) rank\<rparr>"
  by (simp add: Let_def max_def min_def)

lemma process_line_store:
  assumes f: "table_fields (py_split line) = Some (dict1, dict2, dlen, rank, code)"
    and n: "new_HuffmanTableEntry other_codes dict1 dict2 dlen rank code = Returned e"
  shows "process_huffman_table_file_line other_codes line g
         = (Returned (),
            g\<lparr>huffman_table := (huffman_table g)(huffman_code_bits e \<mapsto> e),
              longest_huffman_code_in_bits := max (longest_huffman_code_in_bits g) rank,
              shortest_huffman_code_in_bits := min (shortest_huffman_code_in_bits g) rank\<rparr>)"
proof -
  let ?g2 = "g\<lparr>longest_huffman_code_in_bits := max (longest_huffman_code_in_bits g) rank,
        shortest_huffman_code_in_bits := min (shortest_huffman_code_in_bits g) rank\<rparr>"
  have "process_huffman_table_file_line other_codes line g
        = (Returned (), ?g2\<lparr>huffman_table := (huffman_table ?g2)(huffman_code_bits e \<mapsto> e)\<rparr>)"
    unfolding process_huffman_table_file_line_def f
    by (simp add: counters_moved [unfolded Let_def] n Let_def)
  then show ?thesis by simp
qed

lemma new_HuffmanTableEntry_binary:
  assumes "0 \<le> dlen" and "dlen \<le> sys_maxsize"
    and "0 \<le> dict1" and "dict1 < 256 ^ nat dlen"
    and "0 \<le> dict2" and "dict2 < 256 ^ nat dlen"
    and "binary_digits code"
  shows "new_HuffmanTableEntry other_codes dict1 dict2 dlen rank code
         = Returned \<lparr>dict1_value = be_bytes (nat dlen) (nat dict1),
                     dict2_value = be_bytes (nat dlen) (nat dict2),
                     dictionary_data_length = dlen, huffman_code_rank = rank,
                     huffman_code = code,
                     huffman_code_bits = map (\<lambda>c. c = CHR ''1'') code\<rparr>"
  unfolding new_HuffmanTableEntry_def
    int_to_bytes_big_fits [OF assms(1,2,3,4)] int_to_bytes_big_fits [OF assms(1,2,5,6)]
    bits_of_bin_binary [OF assms(7)]
  by (simp add: obind_def)

text \<open>The table of one line whose code stands for a word of 4097 zero bytes.\<close>

lemma be_bytes_zero: "be_bytes n 0 = replicate n 0"
  by (induction n) (simp_all add: replicate_append_same)

lemma long_word_table:
  "snd (read_ascii_huffman_table_from_file other_codes [''00 0 00 0 4097 7 0000000'']
          clear_huffman_table_data)
   = \<lparr>huffman_table =
        [[False, False, False, False, False, False, False] \<mapsto>
           \<lparr>dict1_value = replicate 4097 0, dict2_value = replicate 4097 0,
            dictionary_data_length = 4097, huffman_code_rank = 7,
            huffman_code = ''0000000'',
            huffman_code_bits = [False, False, False, False, False, False, False]\<rparr>],
      longest_huffman_code_in_bits = 7, shortest_huffman_code_in_bits = 7\<rparr>"
proof -
  let ?L = "''00 0 00 0 4097 7 0000000''"
  let ?e = "\<lparr>dict1_value = be_bytes (nat 4097) (nat 0),
             dict2_value = be_bytes (nat 4097) (nat 0),
             dictionary_data_length = 4097, huffman_code_rank = 7,
             huffman_code = ''0000000'',
             huffman_code_bits = map (\<lambda>c. c = CHR ''1'') ''0000000''\<rparr>"
  have f: "table_fields (py_split ?L) = Some (0, 0, 4097, 7, ''0000000'')" by code_simp
  have bd: "binary_digits ''0000000''" by code_simp
  have e: "new_HuffmanTableEntry other_codes 0 0 4097 7 ''0000000'' = Returned ?e"
    by (rule new_HuffmanTableEntry_binary [OF _ _ _ _ _ _ bd]) (simp_all add: sys_maxsize_def)
  have bits: "map (\<lambda>c. c = CHR ''1'') ''0000000''
                = [False, False, False, False, False, False, False]"
    by code_simp
  from process_line_store [OF f e, of clear_huffman_table_data]
  show ?thesis
    by (simp add: be_bytes_zero bits clear_huffman_table_data_def sys_maxsize_def)
qed

subsection \<open>Every stored entry\<close>

lemma table_okI:
  assumes "\<And>k e. huffman_table g k = Some e \<Longrightarrow> huffman_code_bits e = k \<and> entry_lengths_ok e"
  shows "table_ok g"
  unfolding table_ok_def using assms by blast

lemma table_okD:
  assumes "table_ok g" and "huffman_table g k = Some e"
  shows "huffman_code_bits e = k \<and> entry_lengths_ok e"
  using assms unfolding table_ok_def by blast

lemma new_HuffmanTableEntry_ok:
  assumes "new_HuffmanTableEntry other_codes dict1 dict2 dlen rank code = Returned e"
  shows "entry_lengths_ok e"
proof -
  from assms obtain d1 d2 bits
    where d1: "int_to_bytes_big dict1 dlen = Returned d1"
      and d2: "int_to_bytes_big dict2 dlen = Returned d2"
      and e: "e = \<lparr>dict1_value = d1, dict2_value = d2, dictionary_data_length = dlen,
                   huffman_code_rank = rank, huffman_code = code, huffman_code_bits = bits\<rparr>"
    by (auto simp: new_HuffmanTableEntry_def obind_def split: outcome.splits)
  from int_to_bytes_big_length [OF d1] int_to_bytes_big_length [OF d2] e
  show ?thesis by (simp add: entry_lengths_ok_def)
qed

lemma process_line_table:
  "huffman_table (snd (process_huffman_table_file_line other_codes line g)) = huffman_table g
   \<or> (\<exists>dict1 dict2 dlen rank code e.
         new_HuffmanTableEntry other_codes dict1 dict2 dlen rank code = Returned e
         \<and> huffman_table (snd (process_huffman_table_file_line other_codes line g))
             = (huffman_table g)(huffman_code_bits e \<mapsto> e))"
proof (cases "table_fields (py_split line)")
  case None
  then show ?thesis by (simp add: process_huffman_table_file_line_def)
next
  case (Some a)
  obtain dict1 dict2 dlen rank code where a: "a = (dict1, dict2, dlen, rank, code)"
    by (cases a)
  show ?thesis
  proof (cases "new_HuffmanTableEntry other_codes dict1 dict2 dlen rank code")
    case (Raised err)
    with Some a show ?thesis
      by (simp add: process_huffman_table_file_line_def Let_def)
  next
    case (Returned e)
    from process_line_store [OF Some [unfolded a] Returned, of g]
    have "huffman_table (snd (process_huffman_table_file_line other_codes line g))
             = (huffman_table g)(huffman_code_bits e \<mapsto> e)"
      by simp
    with Returned show ?thesis by blast
  qed
qed

lemma process_line_table_ok:
  assumes "table_ok g"
  shows "table_ok (snd (process_huffman_table_file_line other_codes line g))"
proof (rule table_okI)
  fix k e
  assume l: "huffman_table (snd (process_huffman_table_file_line other_codes line g)) k = Some e"
  from process_line_table [of other_codes line g]
  show "huffman_code_bits e = k \<and> entry_lengths_ok e"
  proof
    assume "huffman_table (snd (process_huffman_table_file_line other_codes line g))
              = huffman_table g"
    with l have "huffman_table g k = Some e" by simp
    with assms show ?thesis by (rule table_okD)
  next
    assume "\<exists>dict1 dict2 dlen rank code e.
         new_HuffmanTableEntry other_codes dict1 dict2 dlen rank code = Returned e
         \<and> huffman_table (snd (process_huffman_table_file_line other_codes line g))
             = (huffman_table g)(huffman_code_bits e \<mapsto> e)"
    then obtain dict1 dict2 dlen rank code e'
      where n: "new_HuffmanTableEntry other_codes dict1 dict2 dlen rank code = Returned e'"
        and t: "huffman_table (snd (process_huffman_table_file_line other_codes line g))
             = (huffman_table g)(huffman_code_bits e' \<mapsto> e')"
      by blast
    show ?thesis
    proof (cases "k = huffman_code_bits e'")
      case True
      with l t have "e = e'" by simp
      with True new_HuffmanTableEntry_ok [OF n] show ?thesis by simp
    next
      case False
      with l t have "huffman_table g k = Some e" by simp
      with assms show ?thesis by (rule table_okD)
    qed
  qed
qed

lemma read_table_ok:
  assumes "table_ok g"
  shows "table_ok (snd (read_ascii_huffman_table_from_file other_codes lines g))"
  using assms
proof (induction lines arbitrary: g)
  case Nil
  then show ?case by simp
next
  case (Cons line lines)
  obtain r g' where p: "process_huffman_table_file_line other_codes line g = (r, g')"
    by (cases "process_huffman_table_file_line other_codes line g")
  from process_line_table_ok [OF Cons.prems, of other_codes line] p have g': "table_ok g'"
    by simp
  show ?case
  proof (cases r)
    case (Returned u)
    with p Cons.IH [OF g'] show ?thesis by simp
  next
    case (Raised err)
    with p g' show ?thesis by simp
  qed
qed

text \<open>
  Whatever the lines of the table file, every entry of the loaded table is stored under
  its own bits, and its two dictionary values have the length of its length field.
\<close>

lemma loaded_entry_dict_lengths:
  assumes "huffman_table
             (snd (read_ascii_huffman_table_from_file other_codes lines
                     clear_huffman_table_data)) k = Some e"
  shows "huffman_code_bits e = k
         \<and> length (dict1_value e) = length (dict2_value e)
         \<and> int (length (dict1_value e)) = dictionary_data_length e"
proof -
  have "table_ok clear_huffman_table_data"
    by (rule table_okI) (simp add: clear_huffman_table_data_def)
  then have "table_ok (snd (read_ascii_huffman_table_from_file other_codes lines
                              clear_huffman_table_data))"
    by (rule read_table_ok)
  from table_okD [OF this assms] show ?thesis by (simp add: entry_lengths_ok_def)
qed

subsection \<open>The claims about the table loader\<close>

text \<open>
  Claim C7, as stated, fails: a line whose fields convert but whose first value does not
  fit in the stated length raises OverflowError out of the function (the constructor is
  called after the \<open>try\<close> block), with both counters already set to the line's depth.
  The code of the line is binary, so the library parameter plays no part.
\<close>

theorem process_line_raises:
  "fst (process_huffman_table_file_line (\<lambda>code. Raised CreationError)
          ''100 0 02 0 1 7 0000000'' clear_huffman_table_data)
     = Raised OverflowError
   \<and> longest_huffman_code_in_bits
       (snd (process_huffman_table_file_line (\<lambda>code. Raised CreationError)
               ''100 0 02 0 1 7 0000000'' clear_huffman_table_data)) = 7
   \<and> longest_huffman_code_in_bits clear_huffman_table_data = 0"
  by code_simp

text \<open>
  Claim C7, amended, on the tokens of the line (\<open>line.split()\<close>), whatever the library
  does with codes that are not binary.

  A line with fewer than seven tokens, or whose token 0 or token 2 is rejected by
  \<open>int(_, 16)\<close>, or whose token 4 or token 5 is rejected by \<open>int(_, 10)\<close>, is skipped:
  the function returns without an error, and the table and both counters are as they
  were.

  A line with at least seven tokens, whose tokens 0 and 2 are the values \<open>dict1\<close> and
  \<open>dict2\<close> in base 16 and whose tokens 4 and 5 (of at most 4300 characters each) are the
  length \<open>dlen\<close> and the depth \<open>rank\<close> in base 10, with \<open>0 \<le> dlen \<le> 65536\<close>, both
  values in \<open>0 .. 256 ^ dlen - 1\<close>, and token 6 a non-empty string of the digits \<open>0\<close> and
  \<open>1\<close>, returns without an error and changes the state in exactly this way: the entry
  under the bits of token 6 is added or overwritten (it holds the two values as \<open>dlen\<close>
  bytes each, most significant first, the length, the depth and the code), the longest
  counter becomes the maximum of itself and the depth, and the shortest counter the
  minimum of itself and the depth.
\<close>

theorem process_line_skips_or_stores:
  "(length (py_split line) < 7
    \<or> py_int (py_split line ! 0) 16 = None \<or> py_int (py_split line ! 2) 16 = None
    \<or> py_int (py_split line ! 4) 10 = None \<or> py_int (py_split line ! 5) 10 = None
    \<longrightarrow> process_huffman_table_file_line other_codes line g = (Returned (), g))
   \<and> (\<forall>dict1 dict2 dlen rank.
        7 \<le> length (py_split line)
        \<and> py_int (py_split line ! 0) 16 = Some dict1
        \<and> py_int (py_split line ! 2) 16 = Some dict2
        \<and> py_int (py_split line ! 4) 10 = Some dlen \<and> length (py_split line ! 4) \<le> 4300
        \<and> py_int (py_split line ! 5) 10 = Some rank \<and> length (py_split line ! 5) \<le> 4300
        \<and> 0 \<le> dlen \<and> dlen \<le> 65536
        \<and> 0 \<le> dict1 \<and> dict1 < 256 ^ nat dlen \<and> 0 \<le> dict2 \<and> dict2 < 256 ^ nat dlen
        \<and> binary_digits (py_split line ! 6)
        \<longrightarrow> process_huffman_table_file_line other_codes line g
            = (Returned (),
               g\<lparr>huffman_table :=
                    (huffman_table g)
                      (map (\<lambda>c. c = CHR ''1'') (py_split line ! 6) \<mapsto>
                         \<lparr>dict1_value = be_bytes (nat dlen) (nat dict1),
                          dict2_value = be_bytes (nat dlen) (nat dict2),
                          dictionary_data_length = dlen, huffman_code_rank = rank,
                          huffman_code = py_split line ! 6,
                          huffman_code_bits = map (\<lambda>c. c = CHR ''1'') (py_split line ! 6)\<rparr>),
                  longest_huffman_code_in_bits := max (longest_huffman_code_in_bits g) rank,
                  shortest_huffman_code_in_bits :=
                    min (shortest_huffman_code_in_bits g) rank\<rparr>))"
proof (intro conjI impI allI)
  assume "length (py_split line) < 7
    \<or> py_int (py_split line ! 0) 16 = None \<or> py_int (py_split line ! 2) 16 = None
    \<or> py_int (py_split line ! 4) 10 = None \<or> py_int (py_split line ! 5) 10 = None"
  then have "table_fields (py_split line) = None" by (rule table_fields_None)
  then show "process_huffman_table_file_line other_codes line g = (Returned (), g)"
    by (rule process_line_skip)
next
  fix dict1 dict2 dlen rank
  let ?code = "py_split line ! 6"
  let ?e = "\<lparr>dict1_value = be_bytes (nat dlen) (nat dict1),
             dict2_value = be_bytes (nat dlen) (nat dict2),
             dictionary_data_length = dlen, huffman_code_rank = rank,
             huffman_code = ?code,
             huffman_code_bits = map (\<lambda>c. c = CHR ''1'') ?code\<rparr>"
  assume h: "7 \<le> length (py_split line)
        \<and> py_int (py_split line ! 0) 16 = Some dict1
        \<and> py_int (py_split line ! 2) 16 = Some dict2
        \<and> py_int (py_split line ! 4) 10 = Some dlen \<and> length (py_split line ! 4) \<le> 4300
        \<and> py_int (py_split line ! 5) 10 = Some rank \<and> length (py_split line ! 5) \<le> 4300
        \<and> 0 \<le> dlen \<and> dlen \<le> 65536
        \<and> 0 \<le> dict1 \<and> dict1 < 256 ^ nat dlen \<and> 0 \<le> dict2 \<and> dict2 < 256 ^ nat dlen
        \<and> binary_digits (py_split line ! 6)"
  then have n: "7 \<le> length (py_split line)"
    and p0: "py_int (py_split line ! 0) 16 = Some dict1"
    and p2: "py_int (py_split line ! 2) 16 = Some dict2"
    and p4: "py_int (py_split line ! 4) 10 = Some dlen"
    and p5: "py_int (py_split line ! 5) 10 = Some rank"
    and l: "0 \<le> dlen" "dlen \<le> 65536"
    and d1: "0 \<le> dict1" "dict1 < 256 ^ nat dlen"
    and d2: "0 \<le> dict2" "dict2 < 256 ^ nat dlen"
    and b: "binary_digits ?code"
    by blast+
  have f: "table_fields (py_split line) = Some (dict1, dict2, dlen, rank, ?code)"
    by (rule table_fields_Some [OF n p0 p2 p4 p5])
  from l(2) have l': "dlen \<le> sys_maxsize" by (simp add: sys_maxsize_def)
  have e: "new_HuffmanTableEntry other_codes dict1 dict2 dlen rank ?code = Returned ?e"
    by (rule new_HuffmanTableEntry_binary [OF l(1) l' d1 d2 b])
  have k: "huffman_code_bits ?e = map (\<lambda>c. c = CHR ''1'') ?code" by simp
  from process_line_store [OF f e, of g]
  show "process_huffman_table_file_line other_codes line g
            = (Returned (),
               g\<lparr>huffman_table :=
                    (huffman_table g)(map (\<lambda>c. c = CHR ''1'') ?code \<mapsto> ?e),
                  longest_huffman_code_in_bits := max (longest_huffman_code_in_bits g) rank,
                  shortest_huffman_code_in_bits :=
                    min (shortest_huffman_code_in_bits g) rank\<rparr>)"
    by (simp only: k)
qed

theorem process_line_skips_or_stores_witness:
  "process_huffman_table_file_line (\<lambda>code. Raised CreationError)
     ''Uncompressed Ref1 Length'' clear_huffman_table_data
     = (Returned (), clear_huffman_table_data)
   \<and> process_huffman_table_file_line (\<lambda>code. Raised CreationError)
       ''Uncompressed Ref1 Uncompressed Ref2 Length Depth Code'' clear_huffman_table_data
     = (Returned (), clear_huffman_table_data)
   \<and> process_huffman_table_file_line (\<lambda>code. Raised CreationError)
       ''01 0 02 0 1 7 0000000'' clear_huffman_table_data
     = (Returned (),
        clear_huffman_table_data
          \<lparr>huffman_table :=
             (huffman_table clear_huffman_table_data)
               ([False, False, False, False, False, False, False] \<mapsto>
                  \<lparr>dict1_value = [1], dict2_value = [2], dictionary_data_length = 1,
                   huffman_code_rank = 7, huffman_code = ''0000000'',
                   huffman_code_bits = [False, False, False, False, False, False, False]\<rparr>),
           longest_huffman_code_in_bits := 7, shortest_huffman_code_in_bits := 7\<rparr>)"
proof -
  let ?o = "\<lambda>code :: string. Raised CreationError :: bool list outcome"
  let ?A = "''Uncompressed Ref1 Length''"
  let ?B = "''Uncompressed Ref1 Uncompressed Ref2 Length Depth Code''"
  let ?C = "''01 0 02 0 1 7 0000000''"
  have a: "length (py_split ?A) < 7" by code_simp
  have b: "py_int (py_split ?B ! 0) 16 = None" by code_simp
  have c: "7 \<le> length (py_split ?C)
        \<and> py_int (py_split ?C ! 0) 16 = Some 1
        \<and> py_int (py_split ?C ! 2) 16 = Some 2
        \<and> py_int (py_split ?C ! 4) 10 = Some 1 \<and> length (py_split ?C ! 4) \<le> 4300
        \<and> py_int (py_split ?C ! 5) 10 = Some 7 \<and> length (py_split ?C ! 5) \<le> 4300
        \<and> (0 :: int) \<le> 1 \<and> (1 :: int) \<le> 65536
        \<and> (0 :: int) \<le> 1 \<and> (1 :: int) < 256 ^ nat 1 \<and> (0 :: int) \<le> 2 \<and> (2 :: int) < 256 ^ nat 1
        \<and> binary_digits (py_split ?C ! 6)"
    by code_simp
  have code: "py_split ?C ! 6 = ''0000000''" by code_simp
  have bits: "map (\<lambda>c. c = CHR ''1'') ''0000000''
                = [False, False, False, False, False, False, False]"
    by code_simp
  have v1: "be_bytes (nat 1) (nat 1) = [1]" by code_simp
  have v2: "be_bytes (nat 1) (nat 2) = [2]" by code_simp
  have mx: "max (longest_huffman_code_in_bits clear_huffman_table_data) 7 = 7" by code_simp
  have mn: "min (shortest_huffman_code_in_bits clear_huffman_table_data) 7 = 7" by code_simp
  note tA = process_line_skips_or_stores [of ?A ?o clear_huffman_table_data]
  note tB = process_line_skips_or_stores [of ?B ?o clear_huffman_table_data]
  note tC = process_line_skips_or_stores [of ?C ?o clear_huffman_table_data]
  from a have "length (py_split ?A) < 7
    \<or> py_int (py_split ?A ! 0) 16 = None \<or> py_int (py_split ?A ! 2) 16 = None
    \<or> py_int (py_split ?A ! 4) 10 = None \<or> py_int (py_split ?A ! 5) 10 = None"
    by (rule disjI1)
  with tA [THEN conjunct1]
  have 1: "process_huffman_table_file_line ?o ?A clear_huffman_table_data
             = (Returned (), clear_huffman_table_data)"
    by (rule mp)
  from b have "length (py_split ?B) < 7
    \<or> py_int (py_split ?B ! 0) 16 = None \<or> py_int (py_split ?B ! 2) 16 = None
    \<or> py_int (py_split ?B ! 4) 10 = None \<or> py_int (py_split ?B ! 5) 10 = None"
    by (rule disjI1 [THEN disjI2])
  with tB [THEN conjunct1]
  have 2: "process_huffman_table_file_line ?o ?B clear_huffman_table_data
             = (Returned (), clear_huffman_table_data)"
    by (rule mp)
  note tC [THEN conjunct2, THEN spec, THEN spec, THEN spec, THEN spec, THEN mp, OF c]
  then have 3: "process_huffman_table_file_line ?o ?C clear_huffman_table_data
     = (Returned (),
        clear_huffman_table_data
          \<lparr>huffman_table :=
             (huffman_table clear_huffman_table_data)
               ([False, False, False, False, False, False, False] \<mapsto>
                  \<lparr>dict1_value = [1], dict2_value = [2], dictionary_data_length = 1,
                   huffman_code_rank = 7, huffman_code = ''0000000'',
                   huffman_code_bits = [False, False, False, False, False, False, False]\<rparr>),
           longest_huffman_code_in_bits := 7, shortest_huffman_code_in_bits := 7\<rparr>)"
    by (simp only: code bits v1 v2 mx mn)
  from 1 2 3 show ?thesis by (intro conjI)
qed

text \<open>
  Claim C8 fails on the code in its first half, against the code's own documentation of
  the entry (``\<open>huffman_code_rank\<close>: The length, in bits, of the Huffman code'', and
  ``\<open>rank\<close>: the size, in bits of the Huffman code''): the depth is read from its own
  column and never compared with the code. A line with a code of seven bits and a depth
  column of 9 is stored with rank 9 under a key of seven bits, whatever the library does
  with codes that are not binary.
\<close>

theorem loaded_entry_rank_differs:
  "huffman_table
     (snd (read_ascii_huffman_table_from_file other_codes [''01 0 02 0 1 9 0000000'']
             clear_huffman_table_data))
     [False, False, False, False, False, False, False]
   = Some \<lparr>dict1_value = [1], dict2_value = [2], dictionary_data_length = 1,
           huffman_code_rank = 9, huffman_code = ''0000000'',
           huffman_code_bits = [False, False, False, False, False, False, False]\<rparr>
   \<and> int (length [False, False, False, False, False, False, False]) \<noteq> 9"
  by code_simp

section \<open>Properties of the page decoder\<close>

subsection \<open>The LUT entry after a call\<close>

lemma decode_page_lut_entry:
  assumes "decode_page_from_input_file_i g inp lut outp off rel
             = Some (Returned rt, inp', lut', outp')"
  shows "lut' = (if size_field lut = 0
                 then lut\<lparr>size_field := HUFFMAN_PAGE_DECODED_SIZE_MAX\<rparr> else lut)"
  using assms unfolding decode_page_from_input_file_i_def Let_def
  by (auto split: outcome.splits prod.splits)

subsection \<open>A loop that does not end\<close>

lemma match_code_empty:
  "table [] = None \<Longrightarrow> match_code table [] n lo = None"
proof (induction table "[] :: bool list" n lo rule: match_code.induct)
  case (1 table n lo)
  show ?case
  proof (cases "n < lo")
    case True
    then show ?thesis by (simp add: match_code.simps [of table "[]" n lo])
  next
    case False
    from "1.prems" have none: "table (slice_to [] n) = None" by (simp add: slice_to_def)
    with False "1.hyps" [OF False none "1.prems"] show ?thesis
      by (simp add: match_code.simps [of table "[]" n lo])
  qed
qed

lemma tail_loop_diverges:
  assumes short: "shortest_huffman_code_in_bits g \<le> 0"
    and nokey: "huffman_table g [] = None"
  shows "tail_loop g selector [] 0 write_position outp = None"
proof (rule ccontr)
  assume "tail_loop g selector [] 0 write_position outp \<noteq> None"
  then obtain res where ret: "tail_loop g selector [] 0 write_position outp = Some res"
    by blast
  have "\<not> (shortest_huffman_code_in_bits g \<le> 0 \<and> huffman_table g [] = None
            \<and> ([] :: bool list) = [] \<and> (0 :: int) = 0)"
  proof (rule tail_loop.raw_induct
      [where P = "\<lambda>g selector bitbuffer valid write_position outp res.
         \<not> (shortest_huffman_code_in_bits g \<le> 0 \<and> huffman_table g [] = None
            \<and> bitbuffer = [] \<and> valid = 0)",
       OF _ ret])
    fix f :: "globals \<Rightarrow> int \<Rightarrow> bool list \<Rightarrow> int \<Rightarrow> int \<Rightarrow> out_file
               \<Rightarrow> ((int \<times> page_exit) \<times> out_file) option"
      and g selector bitbuffer valid write_position outp res
    assume IH: "\<And>g selector bitbuffer valid write_position outp res.
        f g selector bitbuffer valid write_position outp = Some res \<Longrightarrow>
        \<not> (shortest_huffman_code_in_bits g \<le> 0 \<and> huffman_table g [] = None
            \<and> bitbuffer = [] \<and> valid = 0)"
    assume eq: "(if shortest_huffman_code_in_bits g \<le> int (length bitbuffer) then
        (let bitbuffer1 = del_to bitbuffer (int (length bitbuffer) - valid);
             longest_code_possible =
               min (longest_huffman_code_in_bits g) valid
         in case match_code (huffman_table g) bitbuffer1 longest_code_possible
                   (shortest_huffman_code_in_bits g) of
              Some (found, nbits_of_hcode) \<Rightarrow>
                (let outp1 = out_write outp (dcode_to_write selector found);
                     write_position1 =
                       write_position + int (length (dcode_to_write selector found))
                 in if write_position1 \<ge> HUFFMAN_PAGE_DECODED_SIZE_MAX
                    then Some ((write_position1, PageCapReached), outp1)
                    else f g selector bitbuffer1
                           (valid - nbits_of_hcode) write_position1 outp1)
            | None \<Rightarrow> f g selector [] 0 write_position outp)
      else Some ((write_position, InputExhausted), outp)) = Some res"
    show "\<not> (shortest_huffman_code_in_bits g \<le> 0 \<and> huffman_table g [] = None
            \<and> bitbuffer = [] \<and> valid = 0)"
    proof
      assume h: "shortest_huffman_code_in_bits g \<le> 0 \<and> huffman_table g [] = None
            \<and> bitbuffer = [] \<and> valid = 0"
      then have m: "match_code (huffman_table g) []
                      (min (longest_huffman_code_in_bits g) 0)
                      (shortest_huffman_code_in_bits g) = None"
        by (simp add: match_code_empty)
      from h eq m have "f g selector [] 0 write_position outp = Some res"
        by (simp add: Let_def del_to_def)
      from IH [OF this] h show False by simp
    qed
  qed
  with short nokey show False by simp
qed

subsection \<open>The claims about the page decoder\<close>

text \<open>
  Claim C1 fails on the code, against the code's own comment on the page limit (``no
  output page is ever larger than this. As soon as this limit is reached, decoding
  stops''): the limit is tested only after a whole decoded word has been written, and
  nothing shortens the word. With the table of the line
  \<open>00 0 00 0 4097 7 0000000\<close>, whose only code stands for a word of 4097 bytes, a file
  of one zero byte and a last LUT entry (size 0), the first match writes 4097 bytes and
  the call returns 4097. The code of the table line is binary, so this is so whatever the
  library does with other codes.
\<close>

theorem decode_page_overshoots:
  "map_option fst
     (decode_page_from_input_file_i
        (snd (read_ascii_huffman_table_from_file other_codes [''00 0 00 0 4097 7 0000000'']
                clear_huffman_table_data))
        \<lparr>fbytes = [0], fpos = 0\<rparr>
        \<lparr>offset = 0, dictionary_selector = 0, size_field = 0\<rparr>
        \<lparr>obytes = [], opos = 0\<rparr> 0 True)
   = Some (Returned (4097, PageCapReached))
   \<and> \<not> (4097 :: int) \<le> 4096"
proof -
  have b: "bytes_for_bits 7 = Returned 1" by code_simp
  show ?thesis
    unfolding long_word_table
    by (simp add: decode_page_from_input_file_i_def out_seek_def seek_cur_def seek_set_def
        HUFFMAN_PAGE_DECODED_SIZE_MAX_def b file_read_def sys_maxsize_def
        main_loop.simps [of _ _ _ _ 1] del_to_def bits_of_bytes_def bits_of_byte_def
        match_code.simps [of _ _ 7] slice_to_def dcode_to_write_def Let_def)
qed

text \<open>
  Claim C3 fails on the code, against the code's own comments on the tail loop (``attempt
  matches until either: 1. nothing matches or 2. there are fewer than
  \<open>shortest_huffman_code_in_bits\<close> left in the bitbuffer'', and at the miss ``no code
  found, so this is the end''): with a table whose shortest code length is 0 (a table
  line with depth 0, which the loader accepts), a miss in the tail loop clears the
  buffer, the guard \<open>len(bitbuffer) >= shortest_huffman_code_in_bits\<close> still holds, and
  the loop misses again, for ever. The call does not return, where the claim has it
  return the count of bytes written so far. The codes of the two table lines are binary,
  so this is so whatever the library does with other codes.
\<close>

theorem decode_page_tail_miss_never_returns:
  "decode_page_from_input_file_i
     (snd (read_ascii_huffman_table_from_file other_codes
             [''01 0 02 0 1 0 0000000'', ''03 0 04 0 1 8 00000001'']
             clear_huffman_table_data))
     \<lparr>fbytes = [0], fpos = 0\<rparr>
     \<lparr>offset = 0, dictionary_selector = 0, size_field = 1\<rparr>
     \<lparr>obytes = [], opos = 0\<rparr> 0 True
   = None"
proof -
  define g where "g = snd (read_ascii_huffman_table_from_file other_codes
             [''01 0 02 0 1 0 0000000'', ''03 0 04 0 1 8 00000001'']
             clear_huffman_table_data)"
  have short: "shortest_huffman_code_in_bits g = 0" unfolding g_def by code_simp
  have long: "longest_huffman_code_in_bits g = 8" unfolding g_def by code_simp
  have nokey: "huffman_table g [] = None" unfolding g_def by code_simp
  have b: "bytes_for_bits 8 = Returned 1" by code_simp
  from short have "shortest_huffman_code_in_bits g \<le> 0" by simp
  from tail_loop_diverges [OF this nokey]
  have tail: "tail_loop g 0 [] 0 0 \<lparr>obytes = [], opos = 0\<rparr> = None" .
  have "main_loop g 0 1 80 1 0 [0] [] 0 \<lparr>fbytes = [0], fpos = 1\<rparr> \<lparr>obytes = [], opos = 0\<rparr>
          = None"
    by (subst main_loop.simps) (simp add: del_to_def tail)
  then have "decode_page_from_input_file_i g \<lparr>fbytes = [0], fpos = 0\<rparr>
     \<lparr>offset = 0, dictionary_selector = 0, size_field = 1\<rparr>
     \<lparr>obytes = [], opos = 0\<rparr> 0 True = None"
    by (simp add: decode_page_from_input_file_i_def out_seek_def seek_cur_def seek_set_def
          long b file_read_def sys_maxsize_def Let_def)
  then show ?thesis unfolding g_def .
qed

text \<open>
  Claim C2 fails on the code, against the code's own comments (the read position is
  relative to the page, and a read must not go past the end of the page):
  \<open>end_page_position\<close> is \<open>offset + size\<close>, an absolute position, while
  \<open>read_position\<close> starts at 0. With a page of 2 bytes at offset 2 and a table whose
  longest code has 16 bits, the call reads 4 bytes from the page's start (the position
  moves from 2 to 6). The code of the table line is binary, so the result is the same
  whatever the library does with other codes.
\<close>

theorem decode_page_reads_past_page:
  "decode_page_from_input_file_i
     (snd (read_ascii_huffman_table_from_file other_codes
             [''01 0 02 0 1 16 0000000000000000'']
             clear_huffman_table_data))
     \<lparr>fbytes = [0, 0, 0, 0, 0, 0], fpos = 0\<rparr>
     \<lparr>offset = 2, dictionary_selector = 0, size_field = 2\<rparr>
     \<lparr>obytes = [], opos = 0\<rparr> 0 True
   = Some (Returned (1, InputExhausted), \<lparr>fbytes = [0, 0, 0, 0, 0, 0], fpos = 6\<rparr>,
           \<lparr>offset = 2, dictionary_selector = 0, size_field = 2\<rparr>, \<lparr>obytes = [1], opos = 1\<rparr>)"
  by code_simp

text \<open>
  Claim C9. When the call returns: an entry that came with size 0 has size 4096 afterwards
  and is otherwise as it was, so the next call with it does not see the sentinel; an entry
  that came with another size is unchanged in all three fields.
\<close>

theorem decode_page_lut_entry_after:
  assumes "decode_page_from_input_file_i g inp lut outp off rel
             = Some (Returned rt, inp', lut', outp')"
  shows "(size_field lut = 0 \<longrightarrow> lut' = lut\<lparr>size_field := 4096\<rparr>)
         \<and> (size_field lut \<noteq> 0 \<longrightarrow> lut' = lut)
         \<and> size_field lut' \<noteq> 0"
  using decode_page_lut_entry [OF assms]
  by (simp add: HUFFMAN_PAGE_DECODED_SIZE_MAX_def)

theorem decode_page_lut_entry_after_witness:
  "decode_page_from_input_file_i
     \<lparr>huffman_table =
        [[False, False, False, False, False, False, False] \<mapsto>
           \<lparr>dict1_value = [1], dict2_value = [2], dictionary_data_length = 1,
            huffman_code_rank = 7, huffman_code = ''0000000'',
            huffman_code_bits = [False, False, False, False, False, False, False]\<rparr>],
      longest_huffman_code_in_bits = 7, shortest_huffman_code_in_bits = 7\<rparr>
     \<lparr>fbytes = [0, 0], fpos = 0\<rparr>
     \<lparr>offset = 0, dictionary_selector = 0, size_field = 0\<rparr>
     \<lparr>obytes = [], opos = 0\<rparr> 0 True
   = Some (Returned (- 1, NoMatchingCode), \<lparr>fbytes = [0, 0], fpos = 2\<rparr>,
           \<lparr>offset = 0, dictionary_selector = 0, size_field = 4096\<rparr>,
           \<lparr>obytes = [1, 1], opos = 2\<rparr>)
   \<and> \<lparr>offset = 0, dictionary_selector = 0, size_field = 4096\<rparr>
       = \<lparr>offset = 0, dictionary_selector = 0, size_field = 0\<rparr>\<lparr>size_field := 4096\<rparr>"
proof -
  let ?g = "\<lparr>huffman_table =
        [[False, False, False, False, False, False, False] \<mapsto>
           \<lparr>dict1_value = [1 :: byte], dict2_value = [2], dictionary_data_length = 1,
            huffman_code_rank = 7, huffman_code = ''0000000'',
            huffman_code_bits = [False, False, False, False, False, False, False]\<rparr>],
      longest_huffman_code_in_bits = 7, shortest_huffman_code_in_bits = 7\<rparr>"
  have r: "decode_page_from_input_file_i ?g \<lparr>fbytes = [0, 0], fpos = 0\<rparr>
     \<lparr>offset = 0, dictionary_selector = 0, size_field = 0\<rparr>
     \<lparr>obytes = [], opos = 0\<rparr> 0 True
   = Some (Returned (- 1, NoMatchingCode), \<lparr>fbytes = [0, 0], fpos = 2\<rparr>,
           \<lparr>offset = 0, dictionary_selector = 0, size_field = 4096\<rparr>,
           \<lparr>obytes = [1, 1], opos = 2\<rparr>)"
    by code_simp
  from decode_page_lut_entry_after [OF r] r show ?thesis by simp
qed

end
